theory Spec2Isabelle
  imports Complex_Main "HOL-Library.Word"
begin

section \<open>Strings of the source language\<close>

text \<open>
  A TypeScript string is a finite sequence of 16-bit code units. The regular expression
  of the splitter has no \<open>u\<close> flag and \<open>trim\<close> removes single code units, so both work
  on code units and the model does the same. \<open>lit\<close> embeds an ASCII literal.
\<close>

type_synonym code_unit = "16 word"
type_synonym js_string = "code_unit list"

definition lit :: "string \<Rightarrow> js_string" where
  "lit s = map of_char s"

definition LF :: code_unit where "LF = 0x0A"
definition CR :: code_unit where "CR = 0x0D"
definition FF :: code_unit where "FF = 0x0C"

text \<open>The line terminators of the language: LF, CR, U+2028 and U+2029. They are what
  \<open>^\<close> and \<open>$\<close> look at under the \<open>m\<close> flag.\<close>

definition is_line_terminator :: "code_unit \<Rightarrow> bool" where
  "is_line_terminator c \<longleftrightarrow> c = 0x0A \<or> c = 0x0D \<or> c = 0x2028 \<or> c = 0x2029"

text \<open>What \<open>String.prototype.trim\<close> strips: white space and line terminators.\<close>

definition is_white_space :: "code_unit \<Rightarrow> bool" where
  "is_white_space c \<longleftrightarrow>
     c = 0x09 \<or> c = 0x0A \<or> c = 0x0B \<or> c = 0x0C \<or> c = 0x0D \<or> c = 0x20 \<or> c = 0xA0 \<or>
     c = 0x1680 \<or> (0x2000 \<le> c \<and> c \<le> 0x200A) \<or> c = 0x2028 \<or> c = 0x2029 \<or>
     c = 0x202F \<or> c = 0x205F \<or> c = 0x3000 \<or> c = 0xFEFF"

definition trim :: "js_string \<Rightarrow> js_string" where
  "trim s = rev (dropWhile is_white_space (rev (dropWhile is_white_space s)))"


section \<open>The delimiter splitter (utils/markdownParser, in src/packages/editor/src/utils/index.ts)\<close>

text \<open>\<open>markdown.replace(/\r\n/g, '\n')\<close>: every CR LF pair, left to right, becomes LF.\<close>

fun replace_crlf :: "js_string \<Rightarrow> js_string" where
  "replace_crlf (c # d # cs) =
     (if c = CR \<and> d = LF then LF # replace_crlf cs else c # replace_crlf (d # cs))"
| "replace_crlf cs = cs"

definition PAGE_TOKEN :: js_string where
  "PAGE_TOKEN = lit ''---page---''"

text \<open>
  \<open>PAGE_DELIMITER_REGEX = /(?:^---page---$|\f)/gm\<close>. The first alternative matches at a
  position when the previous code unit is a line terminator or there is none (\<open>^\<close>), the
  next ten code units are the token, and what follows is a line terminator or the end of
  the input (\<open>$\<close>). \<open>prev\<close> is the code unit before the position, \<open>s\<close> the input from
  the position on.
\<close>

definition token_at :: "code_unit option \<Rightarrow> js_string \<Rightarrow> bool" where
  "token_at prev s \<longleftrightarrow>
     (case prev of None \<Rightarrow> True | Some c \<Rightarrow> is_line_terminator c) \<and>
     take 10 s = PAGE_TOKEN \<and>
     (case drop 10 s of [] \<Rightarrow> True | c # _ \<Rightarrow> is_line_terminator c)"

text \<open>
  \<open>normalized.split(PAGE_DELIMITER_REGEX)\<close>. The split of the language scans the input
  from left to right; at each position it tries the expression there; on a match it
  closes the current segment and goes on after the match, otherwise it moves one code
  unit on; at the end it closes the last segment. \<open>cur\<close> is the segment being
  collected. After a token match the previous code unit is the token's last one, a
  hyphen (0x2D); the nine code units dropped are the rest of the token.
\<close>

fun regex_split :: "code_unit option \<Rightarrow> js_string \<Rightarrow> js_string \<Rightarrow> js_string list" where
  "regex_split prev cur [] = [cur]"
| "regex_split prev cur (c # cs) =
     (if token_at prev (c # cs) then cur # regex_split (Some 0x2D) [] (drop 9 cs)
      else if c = FF then cur # regex_split (Some FF) [] cs
      else regex_split (Some c) (cur @ [c]) cs)"

definition splitByPageDelimiters :: "js_string \<Rightarrow> js_string list" where
  "splitByPageDelimiters markdown =
     (let normalized = replace_crlf markdown;
          pages = regex_split None [] normalized;
          filteredPages =
            map fst (filter (\<lambda>(page, index). index = 0 \<or> length (trim page) > 0)
                            (zip pages [0 ..< length pages]))
      in if length filteredPages > 0 then filteredPages else [[]])"

text \<open>
  \<open>markdownToHtml\<close> hands the page to the markdown-it library, which is not part of the
  repository: the renderer is a parameter \<open>render\<close> of the model, a function of the
  text it is given.
\<close>

record ParsedPage =
  index :: nat
  markdown :: js_string
  html :: js_string

definition markdownToHtml :: "(js_string \<Rightarrow> js_string) \<Rightarrow> js_string \<Rightarrow> js_string" where
  "markdownToHtml render md = render md"

definition parseMarkdownToPages :: "(js_string \<Rightarrow> js_string) \<Rightarrow> js_string \<Rightarrow> ParsedPage list" where
  "parseMarkdownToPages render text =
     (let pageContents = splitByPageDelimiters text
      in map (\<lambda>(content, i). \<lparr> index = i, markdown = content,
                                 html = markdownToHtml render content \<rparr>)
             (zip pageContents [0 ..< length pageContents]))"

text \<open>
  The claim's words for a delimiter: a form feed anywhere, or a line that is exactly
  the token, that is, a position at the start of a line (the start of the text or just
  after a line terminator) from which the code units up to the next line terminator or
  the end of the text are the token. \<open>count_delimiters\<close> counts the delimiters of a
  text position by position, with no knowledge of the scan of \<open>regex_split\<close>.
\<close>

definition token_line :: "code_unit option \<Rightarrow> js_string \<Rightarrow> bool" where
  "token_line prev s \<longleftrightarrow>
     (case prev of None \<Rightarrow> True | Some c \<Rightarrow> is_line_terminator c) \<and>
     takeWhile (\<lambda>c. \<not> is_line_terminator c) s = PAGE_TOKEN"

fun count_delimiters :: "code_unit option \<Rightarrow> js_string \<Rightarrow> nat" where
  "count_delimiters prev [] = 0"
| "count_delimiters prev (c # cs) =
     (if c = FF \<or> token_line prev (c # cs) then 1 else 0) + count_delimiters (Some c) cs"


section \<open>Page geometry and the stylesheet (utils/printStyles, in src/unnamed/part_004)\<close>

text \<open>
  The lengths of a \<open>PageSize\<close> are numbers of the source language, in millimetres.
  The model takes them as real numbers: the rounding of binary floating point is not
  modelled (the presets and the controls' step of 1 give whole numbers, on which the
  arithmetic used here is exact).
\<close>

record PageSize =
  width :: real
  height :: real
  margin :: real

definition valid_PageSize :: "PageSize \<Rightarrow> bool" where
  "valid_PageSize ps \<longleftrightarrow>
     0 < width ps \<and> 0 < height ps \<and> 0 \<le> margin ps \<and>
     margin ps * 2 < min (width ps) (height ps)"

text \<open>
  The stylesheet is a template string. The model keeps its structure: a list of rules in
  the order of the text, each with the media block it stands in, its selector and its
  declarations; a length interpolated from the page size stays a number with its unit.
  Left out are the rules that are constant text and do not select the page element:
  typography, lists, code, tables, links, images, the screen \<open>body\<close> and the label
  pseudo-element \<open>.page::before\<close>.
\<close>

datatype media = Base | AtPage | Print | Screen

datatype css_value =
    Mm real
  | Mm2 real real
  | CalcMm real string
  | Text string

record css_rule =
  rule_media :: media
  rule_selector :: string
  rule_decls :: "(string \<times> css_value) list"

definition generatePrintStyles :: "PageSize \<Rightarrow> css_rule list" where
  "generatePrintStyles pageSize =
     (let w = width pageSize; h = height pageSize; m = margin pageSize;
          contentWidth = w - m * 2;
          contentHeight = h - m * 2
      in
      [ \<lparr> rule_media = Base, rule_selector = ''*, *::before, *::after'',
          rule_decls = [(''box-sizing'', Text ''border-box'')] \<rparr>,
        \<lparr> rule_media = Base, rule_selector = ''.page'',
          rule_decls =
            [(''width'', Mm contentWidth),
             (''min-height'', Mm contentHeight),
             (''padding'', Mm m),
             (''margin'', Text ''0 auto 20px auto''),
             (''background'', Text ''#fff''),
             (''box-shadow'', Text ''0 2px 8px rgba(0, 0, 0, 0.1)''),
             (''overflow'', Text ''hidden''),
             (''page-break-after'', Text ''always''),
             (''break-after'', Text ''page''),
             (''page-break-inside'', Text ''avoid''),
             (''break-inside'', Text ''avoid'')] \<rparr>,
        \<lparr> rule_media = Base, rule_selector = ''.page.last-page'',
          rule_decls = [(''page-break-after'', Text ''auto''), (''break-after'', Text ''auto'')] \<rparr>,
        \<lparr> rule_media = AtPage, rule_selector = ''@page'',
          rule_decls = [(''size'', Mm2 w h), (''margin'', Text ''0'')] \<rparr>,
        \<lparr> rule_media = Print, rule_selector = ''html, body'',
          rule_decls =
            [(''width'', Mm w), (''height'', Mm h),
             (''margin'', Text ''0''), (''padding'', Text ''0'')] \<rparr>,
        \<lparr> rule_media = Print, rule_selector = ''.page'',
          rule_decls =
            [(''width'', Mm w),
             (''height'', Mm h),
             (''min-height'', Mm h),
             (''max-height'', Mm h),
             (''padding'', Mm m),
             (''margin'', Text ''0''),
             (''box-shadow'', Text ''none''),
             (''page-break-after'', Text ''always''),
             (''break-after'', Text ''page''),
             (''page-break-inside'', Text ''avoid''),
             (''break-inside'', Text ''avoid'')] \<rparr>,
        \<lparr> rule_media = Print, rule_selector = ''.page.last-page'',
          rule_decls = [(''page-break-after'', Text ''auto''), (''break-after'', Text ''auto'')] \<rparr>,
        \<lparr> rule_media = Print, rule_selector = ''h1, h2, h3, h4, h5, h6'',
          rule_decls = [(''page-break-after'', Text ''avoid''), (''break-after'', Text ''avoid'')] \<rparr>,
        \<lparr> rule_media = Screen, rule_selector = '':root'',
          rule_decls =
            [(''--preview-scale'', Text ''0.5''),
             (''--page-width-px'', CalcMm w ''3.7795275591''),
             (''--page-height-px'', CalcMm h ''3.7795275591'')] \<rparr>,
        \<lparr> rule_media = Screen, rule_selector = ''.page-wrapper'',
          rule_decls =
            [(''width'', CalcMm w ''var(--preview-scale)''),
             (''height'', CalcMm h ''var(--preview-scale)''),
             (''position'', Text ''relative''),
             (''flex-shrink'', Text ''0'')] \<rparr>,
        \<lparr> rule_media = Screen, rule_selector = ''.page'',
          rule_decls =
            [(''width'', Mm w),
             (''height'', Mm h),
             (''min-height'', Mm h),
             (''padding'', Mm m),
             (''margin'', Text ''0''),
             (''transform'', Text ''scale(var(--preview-scale))''),
             (''transform-origin'', Text ''top left''),
             (''position'', Text ''absolute''),
             (''top'', Text ''0''),
             (''left'', Text ''0'')] \<rparr>,
        \<lparr> rule_media = Print, rule_selector = ''.page-wrapper'',
          rule_decls = [(''display'', Text ''contents'')] \<rparr> ])"

text \<open>
  Reading a rule set: the declarations of the rules for the page element (selector
  \<open>.page\<close>) in one media block, and whether the sheet sets border-box sizing for every
  element.
\<close>

definition page_decls :: "media \<Rightarrow> css_rule list \<Rightarrow> (string \<times> css_value) list" where
  "page_decls md sheet =
     concat (map rule_decls
       (filter (\<lambda>r. rule_media r = md \<and> rule_selector r = ''.page'') sheet))"

definition border_box :: "css_rule list \<Rightarrow> bool" where
  "border_box sheet \<longleftrightarrow>
     (''box-sizing'', Text ''border-box'') \<in>
       set (concat (map rule_decls
         (filter (\<lambda>r. rule_media r = Base \<and> rule_selector r = ''*, *::before, *::after'') sheet)))"

text \<open>
  The box a block of declarations fixes for the page element under border-box sizing:
  \<open>width\<close> and \<open>height\<close> are the outer sizes, and the content box is the outer box
  less the padding on both sides. A size the block does not declare is \<open>None\<close>.
\<close>

fun mm_of :: "css_value option \<Rightarrow> real option" where
  "mm_of (Some (Mm v)) = Some v"
| "mm_of _ = None"

record page_box =
  outer_width :: "real option"
  outer_height :: "real option"
  box_padding :: "real option"

definition declared_box :: "(string \<times> css_value) list \<Rightarrow> page_box" where
  "declared_box decls =
     \<lparr> outer_width = mm_of (map_of decls ''width''),
       outer_height = mm_of (map_of decls ''height''),
       box_padding = mm_of (map_of decls ''padding'') \<rparr>"

definition content_box :: "page_box \<Rightarrow> (real \<times> real) option" where
  "content_box b =
     (case (outer_width b, outer_height b, box_padding b) of
        (Some w, Some h, Some p) \<Rightarrow> Some (w - 2 * p, h - 2 * p)
      | _ \<Rightarrow> None)"

definition A4 :: PageSize where
  "A4 = \<lparr> width = 210, height = 297, margin = 20 \<rparr>"


section \<open>The preview scale script (generateIframeDocument)\<close>

text \<open>
  The script divides two numbers, and the divisor is zero when the page width is: the
  quotient is then an infinity or not a number, never an error. The model keeps these
  results apart from the finite ones.
\<close>

datatype js_number = Finite real | PosInfinity | NegInfinity | NaN

definition js_divide :: "real \<Rightarrow> real \<Rightarrow> js_number" where
  "js_divide a b =
     (if b \<noteq> 0 then Finite (a / b)
      else if a > 0 then PosInfinity
      else if a < 0 then NegInfinity
      else NaN)"

fun js_min_1 :: "js_number \<Rightarrow> js_number" where
  "js_min_1 (Finite r) = Finite (min r 1)"
| "js_min_1 PosInfinity = Finite 1"
| "js_min_1 NegInfinity = NegInfinity"
| "js_min_1 NaN = NaN"

definition MM_TO_PX :: real where
  "MM_TO_PX = 3.7795275591"

definition updateScale :: "real \<Rightarrow> int \<Rightarrow> js_number" where
  "updateScale PAGE_WIDTH_MM innerWidth =
     (let viewportWidth = real_of_int innerWidth - 40;
          pageWidthPx = PAGE_WIDTH_MM * MM_TO_PX
      in js_min_1 (js_divide viewportWidth pageWidthPx))"


section \<open>The export hook (usePdfExport, in src/packages/editor/src/components/PageSizeControls.tsx)\<close>

subsection \<open>What the hook calls: thrown values, the rasterizer, the PDF library\<close>

text \<open>
  A thrown value is an \<open>Error\<close> with its message, or some other value; the handler of
  the hook tells them apart with \<open>instanceof Error\<close>.
\<close>

datatype js_exn = Error js_string | NonError

text \<open>
  A page element of the surface is a node identity. The rasterizer \<open>html2canvas\<close> is a
  library outside the repository: it is a parameter, giving for an element either a
  thrown value or a canvas. A canvas stands for the PNG data URL \<open>toDataURL\<close> reads
  from it.
\<close>

type_synonym element = nat
type_synonym canvas = js_string

text \<open>
  The document of the PDF library (\<open>jsPDF\<close>, outside the repository) records what
  the hook passes to it: the orientation, unit and format of the constructor, which
  opens the first page; each page added with its format; each image with its data,
  its format name and its rectangle, on the page that is current (the last one added).
\<close>

datatype orientation = Portrait | Landscape

record pdf_image =
  img_data :: js_string
  img_format :: string
  img_x :: real
  img_y :: real
  img_w :: real
  img_h :: real

record pdf_page =
  page_format :: "real \<times> real"
  page_images :: "pdf_image list"

record pdf =
  pdf_orientation :: orientation
  pdf_unit :: string
  pdf_pages :: "pdf_page list"

definition jsPDF_new :: "orientation \<Rightarrow> string \<Rightarrow> real \<times> real \<Rightarrow> pdf" where
  "jsPDF_new ori un fmt =
     \<lparr> pdf_orientation = ori, pdf_unit = un,
       pdf_pages = [\<lparr> page_format = fmt, page_images = [] \<rparr>] \<rparr>"

definition addPage :: "real \<times> real \<Rightarrow> pdf \<Rightarrow> pdf" where
  "addPage fmt doc =
     doc \<lparr> pdf_pages := pdf_pages doc @ [\<lparr> page_format = fmt, page_images = [] \<rparr>] \<rparr>"

definition addImage ::
  "js_string \<Rightarrow> string \<Rightarrow> real \<Rightarrow> real \<Rightarrow> real \<Rightarrow> real \<Rightarrow> pdf \<Rightarrow> pdf" where
  "addImage imgData fmt x y w h doc =
     (case rev (pdf_pages doc) of
        [] \<Rightarrow> doc
      | cur # earlier \<Rightarrow>
          doc \<lparr> pdf_pages := rev earlier @
            [cur \<lparr> page_images := page_images cur @
               [\<lparr> img_data = imgData, img_format = fmt,
                  img_x = x, img_y = y, img_w = w, img_h = h \<rparr>] \<rparr>] \<rparr>)"

text \<open>\<open>pdf.output('blob')\<close>: the blob is the serialized document.\<close>

datatype blob = PdfBlob pdf

subsection \<open>The hook's state and surroundings\<close>

text \<open>The two state cells of the hook, \<open>useState(false)\<close> and \<open>useState(null)\<close>; a
  setter call is the update of the cell.\<close>

record hook_state =
  isExporting :: bool
  error :: "js_string option"

definition initial_state :: hook_state where
  "initial_state = \<lparr> isExporting = False, error = None \<rparr>"

text \<open>
  What the guard \<open>iframe?.contentWindow?.document?.body\<close> meets. A property access of
  the chain throws (the \<open>document\<close> of a cross-origin frame throws a security error);
  or the chain ends in null or undefined (no frame mounted, no window, no body); or the
  body is there, and \<open>body.querySelectorAll('.page')\<close> finds the given elements, in
  document order. The surface is taken not to change while an export runs.
\<close>

datatype frame_access = AccessThrows js_exn | NoBody | Body "element list"

text \<open>
  What one invocation meets: the frame; \<open>import_libs\<close>, the outcome of loading the two
  libraries (\<open>Some e\<close> when the import rejects with \<open>e\<close>); the rasterizer; the options;
  and \<open>onExport\<close>, the caller's callback, when supplied: \<open>Some e\<close> is its throwing or
  rejecting with \<open>e\<close>.
\<close>

record export_env =
  iframe_access :: frame_access
  import_libs :: "js_exn option"
  html2canvas :: "element \<Rightarrow> js_exn + canvas"
  opt_pageSize :: PageSize
  opt_filename :: "js_string option"
  onExport :: "(blob \<Rightarrow> js_string \<Rightarrow> js_exn option) option"

subsection \<open>exportPdf, run from call to return\<close>

text \<open>The \<open>for\<close> loop over the page elements, from index \<open>i\<close> on; \<open>Inl\<close> is a throw.\<close>

fun render_pages ::
  "(element \<Rightarrow> js_exn + canvas) \<Rightarrow> real \<Rightarrow> real \<Rightarrow> nat \<Rightarrow> element list \<Rightarrow> pdf \<Rightarrow> js_exn + pdf" where
  "render_pages h2c w h i [] doc = Inr doc"
| "render_pages h2c w h i (page # rest) doc =
     (case h2c page of
        Inl e \<Rightarrow> Inl e
      | Inr canvas \<Rightarrow>
          let doc1 = (if i > 0 then addPage (w, h) doc else doc);
              imgData = canvas;
              doc2 = addImage imgData ''PNG'' 0 0 w h doc1
          in render_pages h2c w h (i + 1) rest doc2)"

definition export_filename :: "js_string option \<Rightarrow> js_string" where
  "export_filename fn =
     (case fn of
        None \<Rightarrow> lit ''document''
      | Some f \<Rightarrow> if f = [] then lit ''document'' else f) @ lit ''.pdf''"

text \<open>The body of the \<open>try\<close> block: \<open>Inl\<close> is a throw that reaches the handler.\<close>

definition export_try :: "export_env \<Rightarrow> element list \<Rightarrow> js_exn + blob" where
  "export_try env pages =
     (case import_libs env of
        Some e \<Rightarrow> Inl e
      | None \<Rightarrow>
          if length pages = 0 then Inl (Error (lit ''No pages found in document''))
          else
            let w = width (opt_pageSize env); h = height (opt_pageSize env);
                doc = jsPDF_new (if w > h then Landscape else Portrait) ''mm'' (w, h)
            in case render_pages (html2canvas env) w h 0 pages doc of
                 Inl e \<Rightarrow> Inl e
               | Inr doc' \<Rightarrow>
                   let b = PdfBlob doc';
                       filename = export_filename (opt_filename env)
                   in case onExport env of
                        None \<Rightarrow> Inr b
                      | Some cb \<Rightarrow>
                          (case cb b filename of Some e \<Rightarrow> Inl e | None \<Rightarrow> Inr b))"

definition error_message :: "js_exn \<Rightarrow> js_string" where
  "error_message err = (case err of Error msg \<Rightarrow> msg | NonError \<Rightarrow> lit ''Failed to export PDF'')"

text \<open>
  How the promise that \<open>exportPdf\<close> returns settles: it resolves to a blob or to null,
  or it rejects with a value thrown outside the \<open>try\<close> block, which no handler of the
  hook catches.
\<close>

datatype outcome = Rejected js_exn | Resolved "blob option"

text \<open>The guard stands before the \<open>try\<close> block: a throw in it rejects the promise and
  leaves both state cells as they are.\<close>

definition exportPdf :: "export_env \<Rightarrow> hook_state \<Rightarrow> outcome \<times> hook_state" where
  "exportPdf env s =
     (case iframe_access env of
        AccessThrows e \<Rightarrow> (Rejected e, s)
      | NoBody \<Rightarrow> (Resolved None, s \<lparr> error := Some (lit ''Cannot access iframe content'') \<rparr>)
      | Body pages \<Rightarrow>
          let s1 = s \<lparr> isExporting := True, error := None \<rparr>
          in case export_try env pages of
               Inr b \<Rightarrow> (Resolved (Some b), s1 \<lparr> isExporting := False \<rparr>)
             | Inl err \<Rightarrow>
                 (Resolved None,
                  s1 \<lparr> error := Some (error_message err), isExporting := False \<rparr>))"

subsection \<open>exportPdf, one suspension at a time\<close>

text \<open>
  \<open>exportPdf\<close> is an \<open>async\<close> function: it runs until an \<open>await\<close>, gives control
  back, and goes on when the awaited promise settles; between two suspensions nothing
  else runs. An invocation in flight is at one of its three kinds of \<open>await\<close>: the
  import of the libraries, the rasterization of page \<open>i\<close> (with the document built so
  far), or the caller's callback; or it has returned.
\<close>

datatype task =
    Importing "element list"
  | Capturing "element list" nat pdf
  | InCallback blob
  | Returned outcome

definition task_fail :: "js_exn \<Rightarrow> hook_state \<Rightarrow> task \<times> hook_state" where
  "task_fail err s =
     (Returned (Resolved None),
      s \<lparr> error := Some (error_message err), isExporting := False \<rparr>)"

definition task_finish :: "blob \<Rightarrow> hook_state \<Rightarrow> task \<times> hook_state" where
  "task_finish b s = (Returned (Resolved (Some b)), s \<lparr> isExporting := False \<rparr>)"

text \<open>The call itself: the guard, the two state updates, and the import is awaited.\<close>

definition start :: "export_env \<Rightarrow> hook_state \<Rightarrow> task \<times> hook_state" where
  "start env s =
     (case iframe_access env of
        AccessThrows e \<Rightarrow> (Returned (Rejected e), s)
      | NoBody \<Rightarrow>
          (Returned (Resolved None),
           s \<lparr> error := Some (lit ''Cannot access iframe content'') \<rparr>)
      | Body pages \<Rightarrow> (Importing pages, s \<lparr> isExporting := True, error := None \<rparr>))"

text \<open>
  The awaited promise of a task settles and the task runs to its next \<open>await\<close>. A
  task waits for the capture of page \<open>i\<close> only with \<open>i\<close> below the number of pages, and
  for the callback only when one was supplied; the two other branches are never reached
  and leave the task as it is, or finish it.
\<close>

fun resume :: "export_env \<Rightarrow> task \<Rightarrow> hook_state \<Rightarrow> task \<times> hook_state" where
  "resume env (Importing pages) s =
     (case import_libs env of
        Some e \<Rightarrow> task_fail e s
      | None \<Rightarrow>
          if length pages = 0 then task_fail (Error (lit ''No pages found in document'')) s
          else
            let w = width (opt_pageSize env); h = height (opt_pageSize env);
                doc = jsPDF_new (if w > h then Landscape else Portrait) ''mm'' (w, h)
            in (Capturing pages 0 doc, s))"
| "resume env (Capturing pages i doc) s =
     (if i < length pages then
        (case html2canvas env (pages ! i) of
           Inl e \<Rightarrow> task_fail e s
         | Inr canvas \<Rightarrow>
             let w = width (opt_pageSize env); h = height (opt_pageSize env);
                 doc1 = (if i > 0 then addPage (w, h) doc else doc);
                 doc2 = addImage canvas ''PNG'' 0 0 w h doc1
             in if i + 1 < length pages then (Capturing pages (i + 1) doc2, s)
                else
                  let b = PdfBlob doc2
                  in case onExport env of
                       None \<Rightarrow> task_finish b s
                     | Some cb \<Rightarrow> (InCallback b, s))
      else (Capturing pages i doc, s))"
| "resume env (InCallback b) s =
     (case onExport env of
        None \<Rightarrow> task_finish b s
      | Some cb \<Rightarrow>
          (case cb b (export_filename (opt_filename env)) of
             Some e \<Rightarrow> task_fail e s
           | None \<Rightarrow> task_finish b s))"
| "resume env (Returned r) s = (Returned r, s)"

text \<open>
  What can happen around the hook: the caller invokes \<open>exportPdf\<close>, or the promise
  that the \<open>k\<close>-th invocation awaits settles. The invocations share the hook's state
  and the surface. A schedule is a list of such events.
\<close>

datatype event = Invoke | Settle nat

fun exec1 :: "export_env \<Rightarrow> event \<Rightarrow> hook_state \<times> task list \<Rightarrow> hook_state \<times> task list" where
  "exec1 env Invoke (s, ts) = (let (t, s') = start env s in (s', ts @ [t]))"
| "exec1 env (Settle k) (s, ts) =
     (if k < length ts then (let (t, s') = resume env (ts ! k) s in (s', ts[k := t]))
      else (s, ts))"

fun exec :: "export_env \<Rightarrow> event list \<Rightarrow> hook_state \<times> task list \<Rightarrow> hook_state \<times> task list" where
  "exec env [] c = c"
| "exec env (ev # evs) c = exec env evs (exec1 env ev c)"

fun rasterizing :: "task \<Rightarrow> bool" where
  "rasterizing (Capturing pages i doc) = True"
| "rasterizing _ = False"

fun in_flight :: "task \<Rightarrow> bool" where
  "in_flight (Returned r) = False"
| "in_flight _ = True"

text \<open>
  A caller that keeps its trigger disabled while \<open>isExporting\<close> is set, as the
  documented button does: it invokes only when the flag is clear.
\<close>

fun caller_guarded :: "export_env \<Rightarrow> event list \<Rightarrow> hook_state \<times> task list \<Rightarrow> bool" where
  "caller_guarded env [] c = True"
| "caller_guarded env (Invoke # evs) c =
     (\<not> isExporting (fst c) \<and> caller_guarded env evs (exec1 env Invoke c))"
| "caller_guarded env (Settle k # evs) c = caller_guarded env evs (exec1 env (Settle k) c)"


subsection \<open>Notions used to state the properties\<close>

text \<open>The claim's words for an output page: the page size as its format, and one PNG
  image at the origin that spans the page.\<close>

definition full_bleed_page :: "real \<Rightarrow> real \<Rightarrow> js_string \<Rightarrow> pdf_page" where
  "full_bleed_page w h d =
     \<lparr> page_format = (w, h),
       page_images = [\<lparr> img_data = d, img_format = ''PNG'',
                        img_x = 0, img_y = 0, img_w = w, img_h = h \<rparr>] \<rparr>"

text \<open>At most one invocation is in flight, and the flag is set exactly when one is.\<close>

definition one_in_flight :: "hook_state \<times> task list \<Rightarrow> bool" where
  "one_in_flight c \<longleftrightarrow>
     length (filter in_flight (snd c)) \<le> 1 \<and>
     (isExporting (fst c) \<longleftrightarrow> length (filter in_flight (snd c)) = 1)"

subsection \<open>Surroundings used as examples\<close>

text \<open>A surface with two page elements whose rasterization succeeds, the A4 preset, no
  file name and no callback; the same with a callback that throws, as the upload
  example of the documentation does when the server refuses; and the document the
  first gives.\<close>

definition two_pages_env :: export_env where
  "two_pages_env =
     \<lparr> iframe_access = Body [0, 1], import_libs = None,
       html2canvas = (\<lambda>el. Inr (if el = 0 then lit ''png0'' else lit ''png1'')),
       opt_pageSize = A4, opt_filename = None, onExport = None \<rparr>"

definition upload_fails_env :: export_env where
  "upload_fails_env =
     two_pages_env \<lparr> onExport := Some (\<lambda>b f. Some (Error (lit ''Upload failed''))) \<rparr>"

text \<open>The same surface when the frame is cross-origin, when no body can be reached, when
  the rasterization of the second page throws an \<open>Error\<close>, and when it throws a value
  that is not an \<open>Error\<close>.\<close>

definition cross_origin_env :: export_env where
  "cross_origin_env =
     two_pages_env \<lparr> iframe_access :=
       AccessThrows (Error (lit ''Blocked a frame from accessing a cross-origin frame'')) \<rparr>"

definition no_body_env :: export_env where
  "no_body_env = two_pages_env \<lparr> iframe_access := NoBody \<rparr>"

definition capture_fails_env :: export_env where
  "capture_fails_env =
     two_pages_env \<lparr> html2canvas :=
       (\<lambda>el. if el = 0 then Inr (lit ''png0'') else Inl (Error (lit ''Tainted canvas''))) \<rparr>"

definition capture_throws_value_env :: export_env where
  "capture_throws_value_env =
     two_pages_env \<lparr> html2canvas :=
       (\<lambda>el. if el = 0 then Inr (lit ''png0'') else Inl NonError) \<rparr>"

definition two_pages_pdf :: pdf where
  "two_pages_pdf =
     \<lparr> pdf_orientation = Portrait, pdf_unit = ''mm'',
       pdf_pages = [full_bleed_page 210 297 (lit ''png0''),
                    full_bleed_page 210 297 (lit ''png1'')] \<rparr>"


section \<open>Properties of the splitter and of the per-page rendering\<close>

subsection \<open>Auxiliary facts\<close>

lemma regex_split_not_Nil: "regex_split prev cur s \<noteq> []"
  by (induction prev cur s rule: regex_split.induct) auto

lemma filter_zip_shift:
  "0 < k \<Longrightarrow>
   map fst (filter (\<lambda>(page, i). i = 0 \<or> Q page) (zip ps [k ..< k + length ps])) = filter Q ps"
proof (induction ps arbitrary: k)
  case Nil
  then show ?case by simp
next
  case (Cons p ps)
  have "[k ..< k + length (p # ps)] = k # [Suc k ..< Suc k + length ps]"
    using upt_conv_Cons [of k "k + length (p # ps)"] by simp
  with Cons.IH [of "Suc k"] Cons.prems show ?case by simp
qed

lemma filter_zip_first:
  "map fst (filter (\<lambda>(page, i). i = 0 \<or> Q page) (zip (p # ps) [0 ..< length (p # ps)]))
     = p # filter Q ps"
proof -
  have "[0 ..< length (p # ps)] = 0 # [Suc 0 ..< Suc 0 + length ps]"
    using upt_conv_Cons [of 0 "length (p # ps)"] by simp
  with filter_zip_shift [of "Suc 0" Q ps] show ?thesis by simp
qed

lemma dropWhile_all_iff: "(\<forall>x \<in> set (dropWhile P s). P x) \<longleftrightarrow> (\<forall>x \<in> set s. P x)"
proof
  assume a: "\<forall>x \<in> set (dropWhile P s). P x"
  have "dropWhile P s = []"
  proof (rule ccontr)
    assume n: "dropWhile P s \<noteq> []"
    then have "\<not> P (hd (dropWhile P s))" by (rule hd_dropWhile)
    moreover from n have "hd (dropWhile P s) \<in> set (dropWhile P s)" by simp
    ultimately show False using a by blast
  qed
  then show "\<forall>x \<in> set s. P x" by (simp add: dropWhile_eq_Nil_conv)
next
  assume "\<forall>x \<in> set s. P x"
  then show "\<forall>x \<in> set (dropWhile P s). P x" by (auto dest: set_dropWhileD)
qed

text \<open>A page survives \<open>page.trim().length > 0\<close> exactly when some code unit of it is not
  white space.\<close>

lemma trim_nonempty_iff: "length (trim s) > 0 \<longleftrightarrow> (\<exists>c \<in> set s. \<not> is_white_space c)"
proof -
  have "trim s = [] \<longleftrightarrow> (\<forall>x \<in> set (dropWhile is_white_space s). is_white_space x)"
    by (simp add: trim_def)
  then have "trim s = [] \<longleftrightarrow> (\<forall>x \<in> set s. is_white_space x)"
    by (simp only: dropWhile_all_iff)
  then show ?thesis by auto
qed

lemma splitByPageDelimiters_eq:
  "regex_split None [] (replace_crlf text) = p # ps \<Longrightarrow>
   splitByPageDelimiters text = p # filter (\<lambda>q. length (trim q) > 0) ps"
  unfolding splitByPageDelimiters_def Let_def
  by (simp only: filter_zip_first) simp

lemma set_splitByPageDelimiters:
  "set (splitByPageDelimiters text) \<subseteq> set (regex_split None [] (replace_crlf text))"
proof (cases "regex_split None [] (replace_crlf text)")
  case Nil
  then show ?thesis by (simp add: regex_split_not_Nil)
next
  case (Cons p ps)
  then show ?thesis by (auto simp: splitByPageDelimiters_eq)
qed

text \<open>The first alternative of the expression matches exactly at the token lines.\<close>

lemma takeWhile_PAGE_TOKEN:
  "takeWhile (\<lambda>c. \<not> is_line_terminator c) (PAGE_TOKEN @ r)
     = PAGE_TOKEN @ takeWhile (\<lambda>c. \<not> is_line_terminator c) r"
  by (rule takeWhile_append2) (auto simp: PAGE_TOKEN_def lit_def is_line_terminator_def)

lemma token_at_line: "token_at prev s \<longleftrightarrow> token_line prev s"
proof -
  let ?P = "\<lambda>c. \<not> is_line_terminator c"
  have len: "length PAGE_TOKEN = 10"
    by (simp add: PAGE_TOKEN_def lit_def)
  have "takeWhile ?P s = PAGE_TOKEN"
    if t: "take 10 s = PAGE_TOKEN" and e: "case drop 10 s of [] \<Rightarrow> True | c # _ \<Rightarrow> is_line_terminator c"
  proof -
    have "s = take 10 s @ drop 10 s" by simp
    with t have s: "s = PAGE_TOKEN @ drop 10 s" by simp
    from e have "takeWhile ?P (drop 10 s) = []"
      by (cases "drop 10 s") simp_all
    with takeWhile_PAGE_TOKEN [of "drop 10 s"] s show ?thesis by simp
  qed
  moreover have "take 10 s = PAGE_TOKEN \<and>
      (case drop 10 s of [] \<Rightarrow> True | c # _ \<Rightarrow> is_line_terminator c)"
    if w: "takeWhile ?P s = PAGE_TOKEN"
  proof -
    have "s = takeWhile ?P s @ dropWhile ?P s" by simp
    with w have s: "s = PAGE_TOKEN @ dropWhile ?P s" by simp
    then have t: "take 10 s = PAGE_TOKEN" and d: "drop 10 s = dropWhile ?P s"
      using len by (metis append_eq_conv_conj)+
    have "case dropWhile ?P s of [] \<Rightarrow> True | c # _ \<Rightarrow> is_line_terminator c"
    proof (cases "dropWhile ?P s")
      case Nil
      show ?thesis unfolding Nil by simp
    next
      case (Cons c r)
      then have "dropWhile ?P s \<noteq> []" by (simp only: list.distinct not_False_eq_True)
      from hd_dropWhile [OF this] have "is_line_terminator (hd (dropWhile ?P s))" by simp
      then show ?thesis unfolding Cons by simp
    qed
    with t d show ?thesis by simp
  qed
  ultimately show ?thesis
    unfolding token_at_def token_line_def by blast
qed

text \<open>Inside a matched token no delimiter starts: the scan loses none by jumping over it.\<close>

lemma count_inside_token:
  "count_delimiters (Some 0x2D) (tl PAGE_TOKEN @ r) = count_delimiters (Some 0x2D) r"
  by (simp add: PAGE_TOKEN_def lit_def token_line_def is_line_terminator_def FF_def)

lemma token_at_shape:
  assumes "token_at prev (c # cs)"
  shows "c = 0x2D \<and> cs = tl PAGE_TOKEN @ drop 9 cs"
proof -
  from assms have t: "take 10 (c # cs) = PAGE_TOKEN" by (simp add: token_at_def)
  have "c # cs = take 10 (c # cs) @ drop 10 (c # cs)" by (simp only: append_take_drop_id)
  with t have "c # cs = PAGE_TOKEN @ drop 9 cs" by simp
  then show ?thesis by (simp add: PAGE_TOKEN_def lit_def)
qed

lemma length_regex_split:
  "length (regex_split prev cur s) = 1 + count_delimiters prev s"
proof (induction prev cur s rule: regex_split.induct)
  case (1 prev cur)
  show ?case by simp
next
  case (2 prev cur c cs)
  show ?case
  proof (cases "token_at prev (c # cs)")
    case True
    from token_at_shape [OF True] have c: "c = 0x2D" and cs: "cs = tl PAGE_TOKEN @ drop 9 cs"
      by simp_all
    have "count_delimiters (Some c) cs = count_delimiters (Some 0x2D) (tl PAGE_TOKEN @ drop 9 cs)"
      using c cs by simp
    also have "\<dots> = count_delimiters (Some 0x2D) (drop 9 cs)"
      by (rule count_inside_token)
    finally show ?thesis using True "2.IH"(1) by (simp add: token_at_line)
  next
    case False
    then show ?thesis using "2.IH"(2,3) by (cases "c = FF") (simp_all add: token_at_line)
  qed
qed

lemma regex_split_no_FF:
  "FF \<notin> set cur \<Longrightarrow> p \<in> set (regex_split prev cur s) \<Longrightarrow> FF \<notin> set p"
  by (induction prev cur s rule: regex_split.induct) (auto split: if_splits)

lemma parseMarkdownToPages_nth:
  assumes "i < length (splitByPageDelimiters text)"
  shows "parseMarkdownToPages render text ! i =
           \<lparr> index = i, markdown = splitByPageDelimiters text ! i,
             html = markdownToHtml render (splitByPageDelimiters text ! i) \<rparr>"
  using assms by (simp add: parseMarkdownToPages_def Let_def)

lemma length_parseMarkdownToPages:
  "length (parseMarkdownToPages render text) = length (splitByPageDelimiters text)"
  by (simp add: parseMarkdownToPages_def Let_def)

lemma markdown_parseMarkdownToPages:
  "map markdown (parseMarkdownToPages render text) = splitByPageDelimiters text"
  by (rule nth_equalityI)
     (simp_all add: length_parseMarkdownToPages parseMarkdownToPages_nth)

lemmas split_eval =
  splitByPageDelimiters_def lit_def token_at_def token_line_def PAGE_TOKEN_def is_line_terminator_def
  FF_def LF_def CR_def trim_def is_white_space_def

subsection \<open>The claims\<close>

text \<open>
  C3. For every input text the splitter returns at least one page; the empty text gives
  exactly one empty page; the first segment of the split is kept whatever it holds and a
  later segment is kept exactly when it holds a code unit that is not white space; the
  text \<open>A\n---page---\n\<close> gives the single page \<open>A\n\<close>.
\<close>

theorem splitByPageDelimiters_pages:
  "splitByPageDelimiters text \<noteq> [] \<and>
   splitByPageDelimiters [] = [[]] \<and>
   (\<exists>p ps. regex_split None [] (replace_crlf text) = p # ps \<and>
            splitByPageDelimiters text = p # filter (\<lambda>q. \<exists>c \<in> set q. \<not> is_white_space c) ps) \<and>
   splitByPageDelimiters (lit ''A\<newline>---page---\<newline>'') = [lit ''A\<newline>'']"
proof -
  obtain p ps where seg: "regex_split None [] (replace_crlf text) = p # ps"
    using regex_split_not_Nil [of None "[]" "replace_crlf text"] by (auto simp: neq_Nil_conv)
  have kept: "splitByPageDelimiters text = p # filter (\<lambda>q. \<exists>c \<in> set q. \<not> is_white_space c) ps"
    using splitByPageDelimiters_eq [OF seg] by (simp only: trim_nonempty_iff)
  have empty: "splitByPageDelimiters [] = [[]]"
    by (simp add: splitByPageDelimiters_def)
  have trailing: "splitByPageDelimiters (lit ''A\<newline>---page---\<newline>'') = [lit ''A\<newline>'']"
    by (simp add: split_eval)
  from seg kept empty trailing show ?thesis by simp
qed

theorem splitByPageDelimiters_pages_witness:
  "splitByPageDelimiters (lit ''A\<newline>---page---\<newline> \<newline>---page---\<newline>B'')
     = [lit ''A\<newline>'', lit ''\<newline>B''] \<and>
   regex_split None [] (replace_crlf (lit ''A\<newline>---page---\<newline> \<newline>---page---\<newline>B''))
     = [lit ''A\<newline>'', lit ''\<newline> \<newline>'', lit ''\<newline>B''] \<and>
   splitByPageDelimiters (lit ''A\<newline>---page---\<newline> \<newline>---page---\<newline>B'') \<noteq> []"
  using splitByPageDelimiters_pages [of "lit ''A\<newline>---page---\<newline> \<newline>---page---\<newline>B''"]
  by (simp add: split_eval)

text \<open>
  C5. The form feed and the token line are interchangeable delimiters: \<open>A\fB\<close> and
  \<open>A\n---page---\nB\<close> both give exactly two pages, and the pages agree once trimmed;
  with CR LF line ends the token line gives the same pages as with LF.
\<close>

theorem form_feed_and_token_interchangeable:
  "splitByPageDelimiters (lit ''A'' @ [FF] @ lit ''B'') = [lit ''A'', lit ''B''] \<and>
   splitByPageDelimiters (lit ''A\<newline>---page---\<newline>B'') = [lit ''A\<newline>'', lit ''\<newline>B''] \<and>
   map trim (splitByPageDelimiters (lit ''A'' @ [FF] @ lit ''B''))
     = map trim (splitByPageDelimiters (lit ''A\<newline>---page---\<newline>B'')) \<and>
   splitByPageDelimiters (lit ''A'' @ [CR, LF] @ lit ''---page---'' @ [CR, LF] @ lit ''B'')
     = splitByPageDelimiters (lit ''A\<newline>---page---\<newline>B'')"
  by (simp add: split_eval)

text \<open>
  C8. Rendering is page-local: the \<open>i\<close>-th parsed page carries index \<open>i\<close>, the \<open>i\<close>-th
  page text of the splitter, and as html the renderer applied to that page text alone;
  so any text whose \<open>i\<close>-th page text is the same gets the same html for it, whatever
  its other pages hold.
\<close>

theorem rendering_is_page_local:
  assumes "i < length (parseMarkdownToPages render text)"
  shows "html (parseMarkdownToPages render text ! i)
           = markdownToHtml render (markdown (parseMarkdownToPages render text ! i)) \<and>
         markdown (parseMarkdownToPages render text ! i) = splitByPageDelimiters text ! i \<and>
         index (parseMarkdownToPages render text ! i) = i \<and>
         (\<forall>text'. i < length (splitByPageDelimiters text') \<and>
                   splitByPageDelimiters text' ! i = splitByPageDelimiters text ! i \<longrightarrow>
                   html (parseMarkdownToPages render text' ! i)
                     = html (parseMarkdownToPages render text ! i))"
proof -
  from assms have i: "i < length (splitByPageDelimiters text)"
    by (simp only: length_parseMarkdownToPages)
  show ?thesis
    by (simp add: parseMarkdownToPages_nth i)
qed

theorem rendering_is_page_local_witness:
  "(1::nat) < length (parseMarkdownToPages (\<lambda>s. lit ''<p>'' @ s @ lit ''</p>'')
                        (lit ''1. a\<newline>---page---\<newline>1. b'')) \<and>
   html (parseMarkdownToPages (\<lambda>s. lit ''<p>'' @ s @ lit ''</p>'')
           (lit ''1. a\<newline>---page---\<newline>1. b'') ! 1)
     = lit ''<p>\<newline>1. b</p>''"
proof -
  have len: "(1::nat) < length (parseMarkdownToPages (\<lambda>s. lit ''<p>'' @ s @ lit ''</p>'')
                        (lit ''1. a\<newline>---page---\<newline>1. b''))"
    by (simp add: length_parseMarkdownToPages split_eval)
  have "splitByPageDelimiters (lit ''1. a\<newline>---page---\<newline>1. b'') ! 1 = lit ''\<newline>1. b''"
    by (simp add: split_eval)
  with len rendering_is_page_local [OF len] show ?thesis
    by (simp add: markdownToHtml_def lit_def)
qed

text \<open>
  C10. Delimiters are recognised on the raw text, whatever markdown construct they
  stand in: the page texts of \<open>parseMarkdownToPages\<close> are those of the splitter for
  every renderer; the split of the normalized text has one segment more than the text
  has delimiters (form feeds and token lines, counted position by position), so every
  one of them splits; the pages returned are the first of these segments followed by
  those of the later ones, one per delimiter, that hold a code unit that is not white
  space; and no page keeps a form feed.
\<close>

theorem delimiters_split_raw_text:
  "map markdown (parseMarkdownToPages render text) = splitByPageDelimiters text \<and>
   length (regex_split None [] (replace_crlf text))
     = 1 + count_delimiters None (replace_crlf text) \<and>
   (\<exists>p ps. regex_split None [] (replace_crlf text) = p # ps \<and>
            length ps = count_delimiters None (replace_crlf text) \<and>
            splitByPageDelimiters text = p # filter (\<lambda>q. \<exists>c \<in> set q. \<not> is_white_space c) ps \<and>
            map markdown (parseMarkdownToPages render text)
              = p # filter (\<lambda>q. \<exists>c \<in> set q. \<not> is_white_space c) ps) \<and>
   (\<forall>p \<in> set (splitByPageDelimiters text). FF \<notin> set p)"
proof -
  have no_ff: "FF \<notin> set p" if "p \<in> set (splitByPageDelimiters text)" for p
  proof -
    from that set_splitByPageDelimiters [of "text"]
    have "p \<in> set (regex_split None [] (replace_crlf text))" by blast
    then show ?thesis using regex_split_no_FF [of "[]" p None "replace_crlf text"] by simp
  qed
  obtain p ps where seg: "regex_split None [] (replace_crlf text) = p # ps"
    using regex_split_not_Nil [of None "[]" "replace_crlf text"] by (auto simp: neq_Nil_conv)
  have "length (p # ps) = 1 + count_delimiters None (replace_crlf text)"
    unfolding seg [symmetric] by (rule length_regex_split)
  then have cnt: "length ps = count_delimiters None (replace_crlf text)"
    by simp
  have kept: "splitByPageDelimiters text = p # filter (\<lambda>q. \<exists>c \<in> set q. \<not> is_white_space c) ps"
    using splitByPageDelimiters_eq [OF seg] by (simp only: trim_nonempty_iff)
  have link: "\<exists>p ps. regex_split None [] (replace_crlf text) = p # ps \<and>
            length ps = count_delimiters None (replace_crlf text) \<and>
            splitByPageDelimiters text = p # filter (\<lambda>q. \<exists>c \<in> set q. \<not> is_white_space c) ps \<and>
            map markdown (parseMarkdownToPages render text)
              = p # filter (\<lambda>q. \<exists>c \<in> set q. \<not> is_white_space c) ps"
    using seg cnt kept by (simp add: markdown_parseMarkdownToPages)
  from no_ff link show ?thesis
    by (simp add: markdown_parseMarkdownToPages length_regex_split)
qed

text \<open>A token line and a form feed inside a fenced code block split the block over
  three pages.\<close>

theorem delimiters_split_raw_text_witness:
  "map markdown (parseMarkdownToPages (\<lambda>s. s)
      (lit ''```\<newline>a\<newline>---page---\<newline>b'' @ [FF] @ lit ''c\<newline>```''))
     = [lit ''```\<newline>a\<newline>'', lit ''\<newline>b'', lit ''c\<newline>```''] \<and>
   count_delimiters None
     (replace_crlf (lit ''```\<newline>a\<newline>---page---\<newline>b'' @ [FF] @ lit ''c\<newline>```'')) = 2"
proof -
  have "splitByPageDelimiters (lit ''```\<newline>a\<newline>---page---\<newline>b'' @ [FF] @ lit ''c\<newline>```'')
          = [lit ''```\<newline>a\<newline>'', lit ''\<newline>b'', lit ''c\<newline>```'']"
    by (simp add: split_eval)
  moreover have "count_delimiters None
      (replace_crlf (lit ''```\<newline>a\<newline>---page---\<newline>b'' @ [FF] @ lit ''c\<newline>```'')) = 2"
    by (simp add: split_eval)
  ultimately show ?thesis
    using delimiters_split_raw_text
      [of "\<lambda>s. s" "lit ''```\<newline>a\<newline>---page---\<newline>b'' @ [FF] @ lit ''c\<newline>```''"]
    by simp
qed


section \<open>Properties of the stylesheet and of the preview scale\<close>

text \<open>The sheet sets border-box sizing for every element, whatever the page size.\<close>

lemma generatePrintStyles_border_box: "border_box (generatePrintStyles ps)"
  by (simp add: border_box_def generatePrintStyles_def Let_def)

text \<open>
  The print block and the screen block give the page element the full page as its outer
  box, with the margin as padding, so that its content box is the page less the margin
  on every side.
\<close>

lemma print_page_box:
  "declared_box (page_decls Print (generatePrintStyles ps))
     = \<lparr> outer_width = Some (width ps), outer_height = Some (height ps),
         box_padding = Some (margin ps) \<rparr>"
  by (simp add: declared_box_def page_decls_def generatePrintStyles_def Let_def)

lemma screen_page_box:
  "declared_box (page_decls Screen (generatePrintStyles ps))
     = \<lparr> outer_width = Some (width ps), outer_height = Some (height ps),
         box_padding = Some (margin ps) \<rparr>"
  by (simp add: declared_box_def page_decls_def generatePrintStyles_def Let_def)

lemma print_and_screen_content_box:
  "content_box (declared_box (page_decls Print (generatePrintStyles ps)))
     = Some (width ps - 2 * margin ps, height ps - 2 * margin ps) \<and>
   content_box (declared_box (page_decls Screen (generatePrintStyles ps)))
     = Some (width ps - 2 * margin ps, height ps - 2 * margin ps)"
  by (simp add: print_page_box screen_page_box content_box_def)

text \<open>
  The base block declares the content width as the width, a minimum height and no
  height: under border-box sizing its outer box is narrower than the page by twice the
  margin.
\<close>

lemma base_page_box:
  "declared_box (page_decls Base (generatePrintStyles ps))
     = \<lparr> outer_width = Some (width ps - margin ps * 2), outer_height = None,
         box_padding = Some (margin ps) \<rparr>"
  by (simp add: declared_box_def page_decls_def generatePrintStyles_def Let_def)

text \<open>
  C2, as the code has it. For every valid page size the sheet sets border-box sizing,
  and the rules for the page element in the print block and in the screen block fix an
  outer box of exactly width by height with the margin as padding, so that the content
  box is (width - 2 margin) by (height - 2 margin), both above zero. The base rule,
  whose sizes both blocks override, has the same padding and fixes no height: it
  declares a minimum height only.
\<close>

theorem print_and_screen_rules_give_full_page:
  assumes "valid_PageSize ps"
  shows "border_box (generatePrintStyles ps) \<and>
         declared_box (page_decls Print (generatePrintStyles ps))
           = \<lparr> outer_width = Some (width ps), outer_height = Some (height ps),
               box_padding = Some (margin ps) \<rparr> \<and>
         declared_box (page_decls Screen (generatePrintStyles ps))
           = \<lparr> outer_width = Some (width ps), outer_height = Some (height ps),
               box_padding = Some (margin ps) \<rparr> \<and>
         content_box (declared_box (page_decls Print (generatePrintStyles ps)))
           = Some (width ps - 2 * margin ps, height ps - 2 * margin ps) \<and>
         content_box (declared_box (page_decls Screen (generatePrintStyles ps)))
           = Some (width ps - 2 * margin ps, height ps - 2 * margin ps) \<and>
         0 < width ps - 2 * margin ps \<and> 0 < height ps - 2 * margin ps \<and>
         box_padding (declared_box (page_decls Base (generatePrintStyles ps))) = Some (margin ps) \<and>
         outer_height (declared_box (page_decls Base (generatePrintStyles ps))) = None \<and>
         ''min-height'' \<in> fst ` set (page_decls Base (generatePrintStyles ps))"
proof -
  from assms have "0 < width ps - 2 * margin ps" and "0 < height ps - 2 * margin ps"
    by (simp_all add: valid_PageSize_def)
  moreover have "''min-height'' \<in> fst ` set (page_decls Base (generatePrintStyles ps))"
    by (simp add: page_decls_def generatePrintStyles_def Let_def)
  ultimately show ?thesis
    by (simp add: generatePrintStyles_border_box print_page_box screen_page_box base_page_box
          content_box_def)
qed

theorem print_and_screen_rules_give_full_page_witness:
  "valid_PageSize A4 \<and>
   content_box (declared_box (page_decls Print (generatePrintStyles A4))) = Some (170, 257) \<and>
   content_box (declared_box (page_decls Screen (generatePrintStyles A4))) = Some (170, 257)"
proof -
  have v: "valid_PageSize A4"
    by (simp add: valid_PageSize_def A4_def)
  from print_and_screen_rules_give_full_page [OF v] v show ?thesis
    by (simp add: A4_def content_box_def)
qed

text \<open>
  C2, as stated, fails on the base rule. At the A4 preset (210 by 297 mm, margin 20 mm)
  the sheet sets border-box sizing and the base rule for the page element fixes an outer
  width of 170 mm, not 210 mm, and no height (a minimum height of 257 mm), with 20 mm of
  padding; the print and screen rules fix the outer box 210 by 297 mm.
\<close>

theorem base_page_rule_not_full_page:
  "valid_PageSize A4 \<and>
   border_box (generatePrintStyles A4) \<and>
   declared_box (page_decls Base (generatePrintStyles A4))
     = \<lparr> outer_width = Some 170, outer_height = None, box_padding = Some 20 \<rparr> \<and>
   map_of (page_decls Base (generatePrintStyles A4)) ''min-height'' = Some (Mm 257) \<and>
   declared_box (page_decls Print (generatePrintStyles A4))
     = \<lparr> outer_width = Some 210, outer_height = Some 297, box_padding = Some 20 \<rparr> \<and>
   declared_box (page_decls Screen (generatePrintStyles A4))
     = \<lparr> outer_width = Some 210, outer_height = Some 297, box_padding = Some 20 \<rparr>"
proof -
  have "valid_PageSize A4"
    by (simp add: valid_PageSize_def A4_def)
  moreover have "map_of (page_decls Base (generatePrintStyles A4)) ''min-height'' = Some (Mm 257)"
    by (simp add: page_decls_def generatePrintStyles_def Let_def A4_def)
  ultimately show ?thesis
    by (simp add: generatePrintStyles_border_box base_page_box print_page_box screen_page_box)
       (simp add: A4_def)
qed



text \<open>A page width of zero is outside that: with a viewport of 40 the script computes
  zero divided by zero.\<close>

lemma preview_scale_zero_width: "updateScale 0 40 = NaN"
  by (simp add: updateScale_def js_divide_def Let_def)


section \<open>Properties of the export hook\<close>

subsection \<open>The page loop\<close>

lemma addImage_addPage:
  "addImage d ''PNG'' 0 0 w h (addPage (w, h) doc)
     = doc \<lparr> pdf_pages := pdf_pages doc @ [full_bleed_page w h d] \<rparr>"
  by (simp add: addImage_def addPage_def full_bleed_page_def)

lemma addImage_jsPDF_new:
  "addImage d ''PNG'' 0 0 w h (jsPDF_new ori un (w, h))
     = \<lparr> pdf_orientation = ori, pdf_unit = un, pdf_pages = [full_bleed_page w h d] \<rparr>"
  by (simp add: addImage_def jsPDF_new_def full_bleed_page_def)

text \<open>After the first page every round appends one page that holds its own capture.\<close>

lemma render_pages_later:
  assumes "\<forall>el \<in> set els. h2c el = Inr (cap el)" and "0 < i"
  shows "render_pages h2c w h i els doc
           = Inr (doc \<lparr> pdf_pages := pdf_pages doc @ map (\<lambda>el. full_bleed_page w h (cap el)) els \<rparr>)"
  using assms
proof (induction els arbitrary: i doc)
  case Nil
  then show ?case by simp
next
  case (Cons el els)
  from Cons.prems have el: "h2c el = Inr (cap el)" and rest: "\<forall>x \<in> set els. h2c x = Inr (cap x)"
    by simp_all
  from Cons.IH [OF rest, of "i + 1"] Cons.prems(2) el show ?case
    by (simp add: addImage_addPage)
qed

lemma render_pages_first:
  assumes "\<forall>el \<in> set (el0 # els). h2c el = Inr (cap el)"
  shows "render_pages h2c w h 0 (el0 # els) (jsPDF_new ori un (w, h))
           = Inr \<lparr> pdf_orientation = ori, pdf_unit = un,
                   pdf_pages = map (\<lambda>el. full_bleed_page w h (cap el)) (el0 # els) \<rparr>"
proof -
  from assms have el: "h2c el0 = Inr (cap el0)" and rest: "\<forall>x \<in> set els. h2c x = Inr (cap x)"
    by simp_all
  from render_pages_later [OF rest, of 1] el show ?thesis
    by (simp add: addImage_jsPDF_new)
qed

text \<open>A page whose rasterization throws makes the loop throw.\<close>

lemma render_pages_fails:
  assumes "\<exists>el \<in> set els. \<exists>e. h2c el = Inl e"
  shows "\<exists>e. render_pages h2c w h i els doc = Inl e"
  using assms
proof (induction els arbitrary: i doc)
  case Nil
  then show ?case by simp
next
  case (Cons el els)
  show ?case
  proof (cases "h2c el")
    case (Inl e)
    then show ?thesis by simp
  next
    case (Inr c)
    with Cons.prems have "\<exists>x \<in> set els. \<exists>e. h2c x = Inl e" by auto
    from Cons.IH [OF this] Inr show ?thesis by (simp add: Let_def)
  qed
qed

lemma export_try_built:
  assumes "pages \<noteq> []" and "import_libs env = None"
    and "\<forall>el \<in> set pages. html2canvas env el = Inr (cap el)"
  shows "render_pages (html2canvas env) (width (opt_pageSize env)) (height (opt_pageSize env)) 0 pages
           (jsPDF_new (if width (opt_pageSize env) > height (opt_pageSize env)
                       then Landscape else Portrait) ''mm''
              (width (opt_pageSize env), height (opt_pageSize env)))
         = Inr \<lparr> pdf_orientation = (if width (opt_pageSize env) > height (opt_pageSize env)
                                     then Landscape else Portrait),
                 pdf_unit = ''mm'',
                 pdf_pages = map (\<lambda>el. full_bleed_page (width (opt_pageSize env))
                                          (height (opt_pageSize env)) (cap el)) pages \<rparr>"
proof -
  from assms(1) obtain el0 els where p: "pages = el0 # els" by (cases pages) auto
  from assms(3) show ?thesis unfolding p by (rule render_pages_first)
qed

lemma hook_state_done: "s \<lparr> isExporting := True, error := None \<rparr> \<lparr> isExporting := False \<rparr>
    = \<lparr> isExporting = False, error = None \<rparr>"
  by simp

text \<open>The \<open>try\<close> block when the document gets built: only the callback is left to decide.\<close>

lemma export_try_ok:
  assumes "pages \<noteq> []" and "import_libs env = None"
    and "\<forall>el \<in> set pages. html2canvas env el = Inr (cap el)"
    and "doc = \<lparr> pdf_orientation = (if width (opt_pageSize env) > height (opt_pageSize env)
                                     then Landscape else Portrait),
                 pdf_unit = ''mm'',
                 pdf_pages = map (\<lambda>el. full_bleed_page (width (opt_pageSize env))
                                          (height (opt_pageSize env)) (cap el)) pages \<rparr>"
  shows "export_try env pages =
           (case onExport env of
              None \<Rightarrow> Inr (PdfBlob doc)
            | Some cb \<Rightarrow>
                (case cb (PdfBlob doc) (export_filename (opt_filename env)) of
                   Some e \<Rightarrow> Inl e
                 | None \<Rightarrow> Inr (PdfBlob doc)))"
proof -
  from assms(1) have len: "length pages \<noteq> 0" by simp
  note built = export_try_built [OF assms(1,2,3), folded assms(4)]
  show ?thesis
    unfolding export_try_def Let_def
    using assms(2) len by (simp add: built split del: if_split)
qed


subsection \<open>The claims about one invocation\<close>

text \<open>
  C4. When the surface is reachable and holds N >= 1 page elements, the libraries load,
  every rasterization succeeds and the callback, if any, does not throw, \<open>exportPdf\<close>
  returns a document created in millimetres with the orientation landscape exactly when
  the width exceeds the height, whose pages are, in the order of the page elements, one
  page of the configured size per element, each holding that element's capture as one
  image at (0, 0) spanning width by height; so it has exactly N pages.
\<close>

theorem export_pages_in_order:
  assumes "iframe_access env = Body pages" and "pages \<noteq> []" and "import_libs env = None"
    and "\<forall>el \<in> set pages. html2canvas env el = Inr (cap el)"
    and "\<forall>cb b f. onExport env = Some cb \<longrightarrow> cb b f = None"
  shows "\<exists>doc. exportPdf env s
                  = (Resolved (Some (PdfBlob doc)), \<lparr> isExporting = False, error = None \<rparr>) \<and>
           pdf_orientation doc = (if width (opt_pageSize env) > height (opt_pageSize env)
                                  then Landscape else Portrait) \<and>
           pdf_unit doc = ''mm'' \<and>
           pdf_pages doc = map (\<lambda>el. full_bleed_page (width (opt_pageSize env))
                                        (height (opt_pageSize env)) (cap el)) pages \<and>
           length (pdf_pages doc) = length pages"
proof -
  let ?w = "width (opt_pageSize env)" and ?h = "height (opt_pageSize env)"
  let ?doc = "\<lparr> pdf_orientation = (if ?w > ?h then Landscape else Portrait), pdf_unit = ''mm'',
                pdf_pages = map (\<lambda>el. full_bleed_page ?w ?h (cap el)) pages \<rparr>"
  note ok = export_try_ok [OF assms(2,3,4) refl]
  have "export_try env pages = Inr (PdfBlob ?doc)"
  proof (cases "onExport env")
    case None
    then show ?thesis by (simp add: ok)
  next
    case (Some cb)
    with assms(5) have "cb (PdfBlob ?doc) (export_filename (opt_filename env)) = None" by simp
    with Some show ?thesis by (simp add: ok)
  qed
  with assms(1) have "exportPdf env s
      = (Resolved (Some (PdfBlob ?doc)), \<lparr> isExporting = False, error = None \<rparr>)"
    by (simp add: exportPdf_def Let_def)
  then show ?thesis
    by (intro exI [of _ ?doc]) simp
qed

theorem export_pages_in_order_witness:
  "exportPdf two_pages_env initial_state
     = (Resolved (Some (PdfBlob two_pages_pdf)), \<lparr> isExporting = False, error = None \<rparr>) \<and>
   length (pdf_pages two_pages_pdf) = 2"
proof -
  have h: "\<forall>el \<in> set [0, 1::nat].
             html2canvas two_pages_env el = Inr (if el = 0 then lit ''png0'' else lit ''png1'')"
    by (simp add: two_pages_env_def)
  have c: "\<forall>cb b f. onExport two_pages_env = Some cb \<longrightarrow> cb b f = None"
    by (simp add: two_pages_env_def)
  have "iframe_access two_pages_env = Body [0, 1]" and "[0, 1::nat] \<noteq> []"
    and "import_libs two_pages_env = None"
    by (simp_all add: two_pages_env_def)
  from export_pages_in_order [OF this h c, of initial_state] show ?thesis
    by (auto simp: two_pages_pdf_def two_pages_env_def A4_def)
qed

text \<open>
  C1, as the code has it. When the surface is reachable and holds at least one page
  element, the libraries load and every rasterization succeeds, the document is built;
  \<open>exportPdf\<close> returns its blob when no callback is supplied or the callback returns
  without throwing, and when the callback throws it returns null and leaves the
  callback's error as the error message, the flag cleared.
\<close>

theorem export_returns_blob_unless_callback_throws:
  assumes "iframe_access env = Body pages" and "pages \<noteq> []" and "import_libs env = None"
    and "\<forall>el \<in> set pages. html2canvas env el = Inr (cap el)"
  shows "\<exists>doc.
           pdf_pages doc = map (\<lambda>el. full_bleed_page (width (opt_pageSize env))
                                        (height (opt_pageSize env)) (cap el)) pages \<and>
           (case onExport env of
              None \<Rightarrow>
                exportPdf env s
                  = (Resolved (Some (PdfBlob doc)), \<lparr> isExporting = False, error = None \<rparr>)
            | Some cb \<Rightarrow>
                (case cb (PdfBlob doc) (export_filename (opt_filename env)) of
                   None \<Rightarrow>
                     exportPdf env s
                  = (Resolved (Some (PdfBlob doc)), \<lparr> isExporting = False, error = None \<rparr>)
                 | Some e \<Rightarrow>
                     exportPdf env s
                       = (Resolved None, \<lparr> isExporting = False, error = Some (error_message e) \<rparr>)))"
proof -
  let ?w = "width (opt_pageSize env)" and ?h = "height (opt_pageSize env)"
  let ?doc = "\<lparr> pdf_orientation = (if ?w > ?h then Landscape else Portrait), pdf_unit = ''mm'',
                pdf_pages = map (\<lambda>el. full_bleed_page ?w ?h (cap el)) pages \<rparr>"
  note ok = export_try_ok [OF assms(2,3,4) refl]
  show ?thesis
  proof (intro exI [of _ ?doc] conjI)
    show "pdf_pages ?doc = map (\<lambda>el. full_bleed_page ?w ?h (cap el)) pages"
      by simp
    show "case onExport env of
            None \<Rightarrow>
              exportPdf env s
                = (Resolved (Some (PdfBlob ?doc)), \<lparr> isExporting = False, error = None \<rparr>)
          | Some cb \<Rightarrow>
              (case cb (PdfBlob ?doc) (export_filename (opt_filename env)) of
                 None \<Rightarrow>
                   exportPdf env s
                = (Resolved (Some (PdfBlob ?doc)), \<lparr> isExporting = False, error = None \<rparr>)
               | Some e \<Rightarrow>
                   exportPdf env s
                     = (Resolved None, \<lparr> isExporting = False, error = Some (error_message e) \<rparr>))"
      using assms(1)
      by (simp add: exportPdf_def Let_def ok split: option.splits split del: if_split)
  qed
qed

theorem export_returns_blob_unless_callback_throws_witness:
  "exportPdf (two_pages_env \<lparr> onExport := Some (\<lambda>b f. None) \<rparr>) initial_state
     = (Resolved (Some (PdfBlob two_pages_pdf)), \<lparr> isExporting = False, error = None \<rparr>)"
proof -
  let ?env = "two_pages_env \<lparr> onExport := Some (\<lambda>b f. None) \<rparr>"
  have h: "\<forall>el \<in> set [0, 1::nat].
             html2canvas ?env el = Inr (if el = 0 then lit ''png0'' else lit ''png1'')"
    by (simp add: two_pages_env_def)
  have "iframe_access ?env = Body [0, 1]" and "[0, 1::nat] \<noteq> []" and "import_libs ?env = None"
    by (simp_all add: two_pages_env_def)
  from export_returns_blob_unless_callback_throws [OF this h, of initial_state]
  obtain doc where
    pages: "pdf_pages doc = [full_bleed_page 210 297 (lit ''png0''), full_bleed_page 210 297 (lit ''png1'')]"
    and res: "exportPdf ?env initial_state
                = (Resolved (Some (PdfBlob doc)), \<lparr> isExporting = False, error = None \<rparr>)"
    by (auto simp: two_pages_env_def A4_def)
  have "exportPdf ?env initial_state
          = (Resolved (Some (PdfBlob two_pages_pdf)), \<lparr> isExporting = False, error = None \<rparr>)"
    by (simp add: exportPdf_def export_try_def two_pages_env_def two_pages_pdf_def A4_def
          jsPDF_new_def addImage_def addPage_def full_bleed_page_def Let_def)
  with res show ?thesis by simp
qed

text \<open>
  C1, as stated, fails: with two page elements that rasterize and a callback that
  throws \<open>Error('Upload failed')\<close>, the document is built (without the callback its
  blob is returned), yet \<open>exportPdf\<close> returns null and reports the callback's message.
\<close>

theorem callback_throw_returns_null:
  "iframe_access upload_fails_env = Body [0, 1] \<and>
   html2canvas upload_fails_env 0 = Inr (lit ''png0'') \<and>
   html2canvas upload_fails_env 1 = Inr (lit ''png1'') \<and>
   export_try two_pages_env [0, 1] = Inr (PdfBlob two_pages_pdf) \<and>
   exportPdf upload_fails_env initial_state
     = (Resolved None, \<lparr> isExporting = False, error = Some (lit ''Upload failed'') \<rparr>)"
  by (simp add: exportPdf_def export_try_def upload_fails_env_def two_pages_env_def
        two_pages_pdf_def A4_def jsPDF_new_def addImage_def addPage_def full_bleed_page_def
        error_message_def initial_state_def Let_def)


subsection \<open>Invocations that overlap\<close>

text \<open>The call never looks at the flag: on a reachable surface it starts an export
  whatever the state, also while another export is in flight.\<close>

lemma start_not_guarded:
  "iframe_access env = Body pages \<Longrightarrow>
   start env s = (Importing pages, \<lparr> isExporting = True, error = None \<rparr>)"
  by (simp add: start_def)

lemma resume_in_flight:
  assumes "in_flight t" and "resume env t s = (t', s')"
  shows "(in_flight t' \<and> s' = s) \<or> (\<not> in_flight t' \<and> \<not> isExporting s')"
  using assms
  by (cases t)
     (auto simp: task_fail_def task_finish_def Let_def split: option.splits sum.splits if_splits)

lemma resume_returned:
  "\<not> in_flight t \<Longrightarrow> resume env t s = (t, s)"
  by (cases t) simp_all

lemma count_list_update:
  assumes "k < length ts"
  shows "length (filter P (ts[k := t])) + (if P (ts ! k) then 1 else 0)
           = length (filter P ts) + (if P t then 1 else 0)"
proof -
  have a: "ts = take k ts @ ts ! k # drop (Suc k) ts"
    using assms by (rule id_take_nth_drop)
  have b: "ts[k := t] = take k ts @ t # drop (Suc k) ts"
    using assms by (rule upd_conv_take_nth_drop)
  have "length (filter P (take k ts @ ts ! k # drop (Suc k) ts)) + (if P t then 1 else 0)
      = length (filter P (take k ts @ t # drop (Suc k) ts)) + (if P (ts ! k) then 1 else 0)"
    by simp
  with a b show ?thesis by simp
qed

lemma invoke_keeps_one_in_flight:
  assumes "one_in_flight (s, ts)" and "\<not> isExporting s"
  shows "one_in_flight (exec1 env Invoke (s, ts))"
proof -
  from assms have "length (filter in_flight ts) \<le> 1" and "length (filter in_flight ts) \<noteq> 1"
    by (simp_all add: one_in_flight_def)
  then have none: "length (filter in_flight ts) = 0"
    by linarith
  with assms(2) show ?thesis
    by (cases "iframe_access env") (simp_all add: one_in_flight_def start_def)
qed

lemma settle_keeps_one_in_flight:
  assumes "one_in_flight (s, ts)"
  shows "one_in_flight (exec1 env (Settle k) (s, ts))"
proof (cases "k < length ts")
  case False
  with assms show ?thesis by simp
next
  case k: True
  show ?thesis
  proof (cases "in_flight (ts ! k)")
    case False
    then have "resume env (ts ! k) s = (ts ! k, s)" by (rule resume_returned)
    with k assms show ?thesis by simp
  next
    case True
    obtain t' s' where r: "resume env (ts ! k) s = (t', s')" by (cases "resume env (ts ! k) s")
    from count_list_update [OF k, of in_flight t'] True
    have cnt: "length (filter in_flight (ts[k := t'])) + 1
                 = length (filter in_flight ts) + (if in_flight t' then 1 else 0)"
      by simp
    from assms have le: "length (filter in_flight ts) \<le> 1"
      and flag: "isExporting s \<longleftrightarrow> length (filter in_flight ts) = 1"
      by (simp_all add: one_in_flight_def)
    from resume_in_flight [OF True r] show ?thesis
    proof
      assume "in_flight t' \<and> s' = s"
      with cnt le flag k r show ?thesis by (simp add: one_in_flight_def)
    next
      assume "\<not> in_flight t' \<and> \<not> isExporting s'"
      with cnt le flag k r show ?thesis by (simp add: one_in_flight_def)
    qed
  qed
qed

lemma guarded_exec_one_in_flight:
  "one_in_flight c \<Longrightarrow> caller_guarded env evs c \<Longrightarrow> one_in_flight (exec env evs c)"
proof (induction evs arbitrary: c)
  case Nil
  then show ?case by simp
next
  case (Cons ev evs)
  obtain s ts where c: "c = (s, ts)" by (cases c)
  show ?case
  proof (cases ev)
    case Invoke
    with Cons.prems c have "one_in_flight (exec1 env Invoke (s, ts))"
      by (intro invoke_keeps_one_in_flight) simp_all
    with Cons.IH [of "exec1 env Invoke (s, ts)"] Cons.prems Invoke c show ?thesis by simp
  next
    case (Settle k)
    with Cons.prems c have "one_in_flight (exec1 env (Settle k) (s, ts))"
      by (intro settle_keeps_one_in_flight) simp
    with Cons.IH [of "exec1 env (Settle k) (s, ts)"] Cons.prems Settle c show ?thesis by simp
  qed
qed

lemma rasterizing_le_in_flight:
  "length (filter rasterizing ts) \<le> length (filter in_flight ts)"
proof (induction ts)
  case Nil
  show ?case by simp
next
  case (Cons t ts)
  then show ?case by (cases t) simp_all
qed

text \<open>
  C9, as the code has it. \<open>exportPdf\<close> has no guard of its own: on a reachable surface
  a call starts an export whatever the state, also with \<open>isExporting\<close> set. The hook
  exposes the flag, and when the caller invokes only while the flag is clear, at every
  moment at most one invocation is in flight, so at most one is rasterizing, and the
  flag is set exactly while one is in flight.
\<close>

theorem caller_guard_serializes:
  assumes "caller_guarded env evs (initial_state, [])"
  shows "(\<forall>s pages. iframe_access env = Body pages \<longrightarrow>
            start env s = (Importing pages, \<lparr> isExporting = True, error = None \<rparr>)) \<and>
         length (filter rasterizing (snd (exec env evs (initial_state, [])))) \<le> 1 \<and>
         length (filter in_flight (snd (exec env evs (initial_state, [])))) \<le> 1 \<and>
         (isExporting (fst (exec env evs (initial_state, [])))
            \<longleftrightarrow> length (filter in_flight (snd (exec env evs (initial_state, [])))) = 1)"
proof -
  have "one_in_flight (initial_state, [])"
    by (simp add: one_in_flight_def initial_state_def)
  from guarded_exec_one_in_flight [OF this assms]
  have inv: "one_in_flight (exec env evs (initial_state, []))" .
  then have "length (filter in_flight (snd (exec env evs (initial_state, [])))) \<le> 1"
    by (simp add: one_in_flight_def)
  with rasterizing_le_in_flight [of "snd (exec env evs (initial_state, []))"]
  have "length (filter rasterizing (snd (exec env evs (initial_state, [])))) \<le> 1"
    by simp
  with inv show ?thesis
    by (simp add: one_in_flight_def start_not_guarded)
qed

text \<open>Two exports one after the other, the second invoked once the first has returned.\<close>

theorem caller_guard_serializes_witness:
  "caller_guarded two_pages_env
     [Invoke, Settle 0, Settle 0, Settle 0, Invoke, Settle 1, Settle 1] (initial_state, []) \<and>
   length (filter rasterizing (snd (exec two_pages_env
     [Invoke, Settle 0, Settle 0, Settle 0, Invoke, Settle 1, Settle 1] (initial_state, [])))) \<le> 1 \<and>
   start two_pages_env \<lparr> isExporting = True, error = None \<rparr>
     = (Importing [0, 1], \<lparr> isExporting = True, error = None \<rparr>)"
proof -
  have g: "caller_guarded two_pages_env
     [Invoke, Settle 0, Settle 0, Settle 0, Invoke, Settle 1, Settle 1] (initial_state, [])"
    by (simp add: two_pages_env_def initial_state_def start_def task_finish_def Let_def A4_def)
  from caller_guard_serializes [OF g]
  have r: "length (filter rasterizing (snd (exec two_pages_env
     [Invoke, Settle 0, Settle 0, Settle 0, Invoke, Settle 1, Settle 1] (initial_state, [])))) \<le> 1"
    by blast
  have s: "start two_pages_env \<lparr> isExporting = True, error = None \<rparr>
     = (Importing [0, 1], \<lparr> isExporting = True, error = None \<rparr>)"
    by (simp add: start_def two_pages_env_def)
  from g r s show ?thesis by (intro conjI)
qed

text \<open>
  C9, as stated, fails: a second call made while the first export is rasterizing its
  first page is neither refused nor put off. Once its import has settled both
  invocations are rasterizing the same surface at the same time; run on in turns, both
  return a blob.
\<close>

theorem overlapping_invocations_interleave:
  "exec two_pages_env [Invoke, Settle 0, Invoke, Settle 1] (initial_state, [])
     = (\<lparr> isExporting = True, error = None \<rparr>,
        [Capturing [0, 1] 0 (jsPDF_new Portrait ''mm'' (210, 297)),
         Capturing [0, 1] 0 (jsPDF_new Portrait ''mm'' (210, 297))]) \<and>
   length (filter rasterizing
     (snd (exec two_pages_env [Invoke, Settle 0, Invoke, Settle 1] (initial_state, [])))) = 2 \<and>
   exec two_pages_env [Invoke, Settle 0, Invoke, Settle 1, Settle 0, Settle 1, Settle 0, Settle 1]
       (initial_state, [])
     = (\<lparr> isExporting = False, error = None \<rparr>,
        [Returned (Resolved (Some (PdfBlob two_pages_pdf))),
         Returned (Resolved (Some (PdfBlob two_pages_pdf)))])"
  by (simp add: two_pages_env_def initial_state_def start_def task_finish_def Let_def A4_def
        two_pages_pdf_def jsPDF_new_def addImage_def addPage_def full_bleed_page_def)


subsection \<open>One invocation on its own: the two descriptions agree\<close>

text \<open>
  Run alone, from the call through every suspension to the return, the invocation of the
  step description does what \<open>exportPdf\<close> of the run-to-return description does: the
  same result and the same final state. An invocation over \<open>n\<close> page elements suspends
  at most \<open>n + 2\<close> times.
\<close>

lemma exec_append: "exec env (evs @ evs') c = exec env evs' (exec env evs c)"
  by (induction evs arbitrary: c) simp_all

lemma exec_returned:
  "exec env (replicate n (Settle 0)) (s, [Returned r]) = (s, [Returned r])"
  by (induction n) simp_all

lemma exec_capture_loop:
  assumes "length pages - i = n" and "i < length pages"
  shows "exec env (replicate n (Settle 0)) (s, [Capturing pages i doc]) =
     (case render_pages (html2canvas env) (width (opt_pageSize env)) (height (opt_pageSize env))
             i (drop i pages) doc of
        Inl e \<Rightarrow> (s \<lparr> error := Some (error_message e), isExporting := False \<rparr>, [Returned (Resolved None)])
      | Inr doc' \<Rightarrow>
          (case onExport env of
             None \<Rightarrow> (s \<lparr> isExporting := False \<rparr>, [Returned (Resolved (Some (PdfBlob doc')))])
           | Some cb \<Rightarrow> (s, [InCallback (PdfBlob doc')])))"
  using assms
proof (induction n arbitrary: i doc)
  case 0
  then show ?case by simp
next
  case (Suc n)
  let ?w = "width (opt_pageSize env)" and ?h = "height (opt_pageSize env)"
  from Suc.prems have i: "i < length pages" by simp
  then have d: "drop i pages = pages ! i # drop (Suc i) pages"
    by (simp add: Cons_nth_drop_Suc)
  show ?case
  proof (cases "html2canvas env (pages ! i)")
    case (Inl e)
    with i d show ?thesis
      by (simp add: task_fail_def exec_returned)
  next
    case (Inr c)
    let ?doc2 = "addImage c ''PNG'' 0 0 ?w ?h (if i > 0 then addPage (?w, ?h) doc else doc)"
    show ?thesis
    proof (cases "Suc i < length pages")
      case True
      with Suc.prems have "length pages - Suc i = n" by simp
      from Suc.IH [OF this True, of ?doc2] i d Inr True show ?thesis
        by (simp add: Let_def)
    next
      case False
      with Suc.prems have n: "n = 0" and last: "drop (Suc i) pages = []" by simp_all
      with i d Inr False show ?thesis
        by (simp add: Let_def task_finish_def split: option.splits)
    qed
  qed
qed

lemma exec_alone_is_exportPdf:
  assumes "n = (case iframe_access env of Body pages \<Rightarrow> length pages | _ \<Rightarrow> 0)"
  shows "exec env (Invoke # replicate (n + 2) (Settle 0)) (s, [])
           = (snd (exportPdf env s), [Returned (fst (exportPdf env s))])"
proof (cases "iframe_access env")
  case (AccessThrows e)
  then show ?thesis
    by (simp add: start_def exportPdf_def exec_returned del: replicate_Suc)
next
  case NoBody
  then show ?thesis
    by (simp add: start_def exportPdf_def exec_returned del: replicate_Suc)
next
  case (Body pages)
  let ?s1 = "s \<lparr> isExporting := True, error := None \<rparr>"
  let ?w = "width (opt_pageSize env)" and ?h = "height (opt_pageSize env)"
  let ?doc = "jsPDF_new (if ?w > ?h then Landscape else Portrait) ''mm'' (?w, ?h)"
  from Body assms have n: "n = length pages" by simp
  have split: "replicate (n + 2) (Settle 0) = Settle 0 # replicate n (Settle 0) @ [Settle 0]"
    by (simp add: replicate_append_same)
  have first: "exec env (Invoke # replicate (n + 2) (Settle 0)) (s, [])
      = exec env (replicate n (Settle 0) @ [Settle 0]) (resume_pair)"
    if "resume_pair = (let (t, s') = resume env (Importing pages) ?s1 in (s', [t]))" for resume_pair
    using Body that unfolding split by (simp add: start_def)
  show ?thesis
  proof (cases "import_libs env")
    case (Some e)
    with \<open>iframe_access env = Body pages\<close> first [OF refl] show ?thesis
      by (simp add: task_fail_def exec_append exec_returned exportPdf_def export_try_def)
  next
    case None
    show ?thesis
    proof (cases "pages = []")
      case True
      with None \<open>iframe_access env = Body pages\<close> first [OF refl] show ?thesis
        by (simp add: task_fail_def exec_append exec_returned exportPdf_def export_try_def)
    next
      case False
      then have pos: "0 < length pages" by simp
      from None False first [OF refl]
      have "exec env (Invoke # replicate (n + 2) (Settle 0)) (s, [])
              = exec env [Settle 0] (exec env (replicate n (Settle 0)) (?s1, [Capturing pages 0 ?doc]))"
        by (simp add: Let_def exec_append split del: if_split)
      also have "exec env (replicate n (Settle 0)) (?s1, [Capturing pages 0 ?doc]) =
        (case render_pages (html2canvas env) ?w ?h 0 pages ?doc of
           Inl e \<Rightarrow> (?s1 \<lparr> error := Some (error_message e), isExporting := False \<rparr>, [Returned (Resolved None)])
         | Inr doc' \<Rightarrow>
             (case onExport env of
                None \<Rightarrow> (?s1 \<lparr> isExporting := False \<rparr>, [Returned (Resolved (Some (PdfBlob doc')))])
              | Some cb \<Rightarrow> (?s1, [InCallback (PdfBlob doc')])))"
        using exec_capture_loop [of pages 0 n env ?s1 ?doc] n pos by simp
      finally show ?thesis
        using None False \<open>iframe_access env = Body pages\<close>
        by (simp add: exportPdf_def export_try_def Let_def task_fail_def task_finish_def
              split: sum.splits option.splits split del: if_split)
    qed
  qed
qed

subsection \<open>The failure modes of one invocation\<close>

text \<open>The loop throws what the first failing rasterization throws.\<close>

lemma render_pages_first_failure:
  assumes "\<forall>x \<in> set pre. \<exists>c. h2c x = Inr c" and "h2c el = Inl e"
  shows "render_pages h2c w h i (pre @ el # post) doc = Inl e"
  using assms
proof (induction pre arbitrary: i doc)
  case Nil
  then show ?case by simp
next
  case (Cons x pre)
  from Cons.prems obtain c where c: "h2c x = Inr c" by auto
  from Cons.prems have "\<forall>y \<in> set pre. \<exists>c. h2c y = Inr c" by simp
  from Cons.IH [OF this Cons.prems(2)] c show ?case by (simp add: Let_def)
qed

text \<open>Under every schedule, guarded by the caller or not, the flag is set only while
  some invocation is in flight.\<close>

lemma flag_set_only_in_flight:
  assumes "isExporting (fst c) \<longrightarrow> (\<exists>t \<in> set (snd c). in_flight t)"
  shows "isExporting (fst (exec env evs c)) \<longrightarrow> (\<exists>t \<in> set (snd (exec env evs c)). in_flight t)"
  using assms
proof (induction evs arbitrary: c)
  case Nil
  then show ?case by simp
next
  case (Cons ev evs)
  obtain s ts where c: "c = (s, ts)" by (cases c)
  have "isExporting (fst (exec1 env ev c)) \<longrightarrow> (\<exists>t \<in> set (snd (exec1 env ev c)). in_flight t)"
  proof (cases ev)
    case Invoke
    with Cons.prems c show ?thesis
      by (cases "iframe_access env") (auto simp: start_def)
  next
    case (Settle k)
    show ?thesis
    proof (cases "k < length ts")
      case False
      with Cons.prems c Settle show ?thesis by simp
    next
      case k: True
      show ?thesis
      proof (cases "in_flight (ts ! k)")
        case False
        then have "resume env (ts ! k) s = (ts ! k, s)" by (rule resume_returned)
        with Cons.prems c Settle k show ?thesis by simp
      next
        case True
        obtain t' s' where r: "resume env (ts ! k) s = (t', s')" by (cases "resume env (ts ! k) s")
        from resume_in_flight [OF True r] show ?thesis
        proof
          assume a: "in_flight t' \<and> s' = s"
          with k have "t' \<in> set (ts[k := t'])" by (simp add: set_update_memI)
          with a c Settle k r show ?thesis by auto
        next
          assume "\<not> in_flight t' \<and> \<not> isExporting s'"
          with c Settle k r show ?thesis by simp
        qed
      qed
    qed
  qed
  from Cons.IH [OF this] show ?case by simp
qed

text \<open>
  C7, as the code has it. When the guard expression evaluates without throwing, every
  failure mode makes \<open>exportPdf\<close> resolve to null and leave an error message: the frame
  content is missing (the message says the iframe content cannot be accessed, and the
  flag stays as it was at the call); no page element is found (the message of that
  condition); the import of the libraries fails, the rasterization of some page throws,
  or the callback throws on the blob that was built (the message of the thrown
  \<open>Error\<close>, or a fixed message for another thrown value). In every mode but the first
  the flag is cleared; it is set only while some invocation is in flight, so after a
  call made while none is, it is clear in the first mode too. An invocation whose guard
  does not throw resolves to null with an error message or to a blob with none.
\<close>

theorem export_failures_reported:
  "(iframe_access env = NoBody \<longrightarrow>
      exportPdf env s
        = (Resolved None, s \<lparr> error := Some (lit ''Cannot access iframe content'') \<rparr>) \<and>
      isExporting (snd (exportPdf env s)) = isExporting s) \<and>
   (iframe_access env = Body [] \<and> import_libs env = None \<longrightarrow>
      exportPdf env s =
        (Resolved None,
         \<lparr> isExporting = False, error = Some (lit ''No pages found in document'') \<rparr>)) \<and>
   (\<forall>pages e. iframe_access env = Body pages \<and> import_libs env = Some e \<longrightarrow>
      exportPdf env s =
        (Resolved None,
         \<lparr> isExporting = False,
           error = Some (case e of Error msg \<Rightarrow> msg
                                 | NonError \<Rightarrow> lit ''Failed to export PDF'') \<rparr>)) \<and>
   (\<forall>pre el post e. iframe_access env = Body (pre @ el # post) \<and> import_libs env = None \<and>
        (\<forall>x \<in> set pre. \<exists>c. html2canvas env x = Inr c) \<and> html2canvas env el = Inl e \<longrightarrow>
      exportPdf env s =
        (Resolved None,
         \<lparr> isExporting = False,
           error = Some (case e of Error msg \<Rightarrow> msg
                                 | NonError \<Rightarrow> lit ''Failed to export PDF'') \<rparr>)) \<and>
   (\<forall>pages cb b e. iframe_access env = Body pages \<and>
        export_try (env \<lparr> onExport := None \<rparr>) pages = Inr b \<and>
        onExport env = Some cb \<and>
        cb b (export_filename (opt_filename env)) = Some e \<longrightarrow>
      exportPdf env s =
        (Resolved None,
         \<lparr> isExporting = False,
           error = Some (case e of Error msg \<Rightarrow> msg
                                 | NonError \<Rightarrow> lit ''Failed to export PDF'') \<rparr>)) \<and>
   (\<forall>pages. iframe_access env = Body pages \<longrightarrow> \<not> isExporting (snd (exportPdf env s))) \<and>
   ((\<forall>e. iframe_access env \<noteq> AccessThrows e) \<longrightarrow>
      (fst (exportPdf env s) = Resolved None \<and> error (snd (exportPdf env s)) \<noteq> None) \<or>
      (\<exists>b. fst (exportPdf env s) = Resolved (Some b) \<and> error (snd (exportPdf env s)) = None)) \<and>
   (isExporting (fst (exec env evs (initial_state, []))) \<longrightarrow>
      (\<exists>t \<in> set (snd (exec env evs (initial_state, []))). in_flight t))"
proof -
  let ?msg = "\<lambda>e. case e of Error msg \<Rightarrow> msg | NonError \<Rightarrow> lit ''Failed to export PDF''"
  have no_body: "exportPdf env s
        = (Resolved None, s \<lparr> error := Some (lit ''Cannot access iframe content'') \<rparr>) \<and>
      isExporting (snd (exportPdf env s)) = isExporting s"
    if "iframe_access env = NoBody"
    using that by (simp add: exportPdf_def)
  have no_pages: "exportPdf env s =
        (Resolved None,
         \<lparr> isExporting = False, error = Some (lit ''No pages found in document'') \<rparr>)"
    if "iframe_access env = Body []" and "import_libs env = None"
    using that by (simp add: exportPdf_def export_try_def error_message_def)
  have import_fails: "exportPdf env s =
        (Resolved None, \<lparr> isExporting = False, error = Some (?msg e) \<rparr>)"
    if "iframe_access env = Body pages" and "import_libs env = Some e" for pages e
    using that by (simp add: exportPdf_def export_try_def error_message_def)
  have capture_fails: "exportPdf env s =
        (Resolved None, \<lparr> isExporting = False, error = Some (?msg e) \<rparr>)"
    if p: "iframe_access env = Body (pre @ el # post)" and i: "import_libs env = None"
      and ok: "\<forall>x \<in> set pre. \<exists>c. html2canvas env x = Inr c" and f: "html2canvas env el = Inl e"
    for pre el post e
  proof -
    from i render_pages_first_failure [OF ok f]
    have "export_try env (pre @ el # post) = Inl e"
      by (simp add: export_try_def Let_def)
    with p show ?thesis by (simp add: exportPdf_def Let_def error_message_def)
  qed
  have callback_fails: "exportPdf env s =
        (Resolved None, \<lparr> isExporting = False, error = Some (?msg e) \<rparr>)"
    if p: "iframe_access env = Body pages"
      and b: "export_try (env \<lparr> onExport := None \<rparr>) pages = Inr b"
      and cb: "onExport env = Some cb" and e: "cb b (export_filename (opt_filename env)) = Some e"
    for pages cb b e
  proof -
    from b cb e have "export_try env pages = Inl e"
      by (auto simp: export_try_def Let_def split: option.splits sum.splits if_splits)
    with p show ?thesis by (simp add: exportPdf_def Let_def error_message_def)
  qed
  have cleared: "\<not> isExporting (snd (exportPdf env s))" if "iframe_access env = Body pages" for pages
    using that by (simp add: exportPdf_def Let_def split: sum.splits)
  have two_ways: "(fst (exportPdf env s) = Resolved None \<and> error (snd (exportPdf env s)) \<noteq> None) \<or>
      (\<exists>b. fst (exportPdf env s) = Resolved (Some b) \<and> error (snd (exportPdf env s)) = None)"
    if "\<forall>e. iframe_access env \<noteq> AccessThrows e"
    using that by (cases "iframe_access env") (simp_all add: exportPdf_def Let_def split: sum.splits)
  have "isExporting (fst (initial_state, [])) \<longrightarrow> (\<exists>t \<in> set (snd (initial_state, [])). in_flight t)"
    by (simp add: initial_state_def)
  from flag_set_only_in_flight [OF this, of env evs]
  have flag: "isExporting (fst (exec env evs (initial_state, []))) \<longrightarrow>
      (\<exists>t \<in> set (snd (exec env evs (initial_state, []))). in_flight t)" .
  from no_body no_pages import_fails capture_fails callback_fails cleared two_ways flag
  show ?thesis by blast
qed

text \<open>No body; no page element; a rasterization that throws an \<open>Error\<close>, and one that
  throws another value.\<close>

theorem export_failures_reported_witness:
  "exportPdf no_body_env initial_state
     = (Resolved None,
        \<lparr> isExporting = False, error = Some (lit ''Cannot access iframe content'') \<rparr>) \<and>
   exportPdf (two_pages_env \<lparr> iframe_access := Body [] \<rparr>) initial_state
     = (Resolved None,
        \<lparr> isExporting = False, error = Some (lit ''No pages found in document'') \<rparr>) \<and>
   exportPdf capture_fails_env initial_state
     = (Resolved None, \<lparr> isExporting = False, error = Some (lit ''Tainted canvas'') \<rparr>) \<and>
   exportPdf capture_throws_value_env initial_state
     = (Resolved None, \<lparr> isExporting = False, error = Some (lit ''Failed to export PDF'') \<rparr>)"
proof -
  note modes = export_failures_reported
  note capture = export_failures_reported
    [THEN conjunct2, THEN conjunct2, THEN conjunct2, THEN conjunct1, rule_format]
  have a: "exportPdf no_body_env initial_state
     = (Resolved None,
        \<lparr> isExporting = False, error = Some (lit ''Cannot access iframe content'') \<rparr>)"
    using modes [of no_body_env initial_state "[]"]
    by (simp add: no_body_env_def two_pages_env_def initial_state_def)
  have b: "exportPdf (two_pages_env \<lparr> iframe_access := Body [] \<rparr>) initial_state
     = (Resolved None,
        \<lparr> isExporting = False, error = Some (lit ''No pages found in document'') \<rparr>)"
    using modes [of "two_pages_env \<lparr> iframe_access := Body [] \<rparr>" initial_state "[]"]
    by (simp add: two_pages_env_def)
  have "iframe_access capture_fails_env = Body ([0] @ 1 # []) \<and>
        import_libs capture_fails_env = None \<and>
        (\<forall>x \<in> set [0]. \<exists>c. html2canvas capture_fails_env x = Inr c) \<and>
        html2canvas capture_fails_env 1 = Inl (Error (lit ''Tainted canvas''))"
    by (simp add: capture_fails_env_def two_pages_env_def)
  from capture [OF this, where s = initial_state]
  have c: "exportPdf capture_fails_env initial_state
     = (Resolved None, \<lparr> isExporting = False, error = Some (lit ''Tainted canvas'') \<rparr>)"
    by simp
  have "iframe_access capture_throws_value_env = Body ([0] @ 1 # []) \<and>
        import_libs capture_throws_value_env = None \<and>
        (\<forall>x \<in> set [0]. \<exists>c. html2canvas capture_throws_value_env x = Inr c) \<and>
        html2canvas capture_throws_value_env 1 = Inl NonError"
    by (simp add: capture_throws_value_env_def two_pages_env_def)
  from capture [OF this, where s = initial_state]
  have d: "exportPdf capture_throws_value_env initial_state
     = (Resolved None, \<lparr> isExporting = False, error = Some (lit ''Failed to export PDF'') \<rparr>)"
    by simp
  from a b c d show ?thesis by (intro conjI)
qed

text \<open>
  C7, as stated, fails in two ways. On a cross-origin frame the guard throws before the
  \<open>try\<close> block: the promise rejects, and no error message is left. And while one
  invocation is in flight (the flag is set), a call that finds no body resolves to null
  with its message and leaves the flag set.
\<close>

theorem guard_throw_escapes_and_flag_stays_set:
  "exportPdf cross_origin_env initial_state
     = (Rejected (Error (lit ''Blocked a frame from accessing a cross-origin frame'')),
        \<lparr> isExporting = False, error = None \<rparr>) \<and>
   exec two_pages_env [Invoke] (initial_state, [])
     = (\<lparr> isExporting = True, error = None \<rparr>, [Importing [0, 1]]) \<and>
   exportPdf no_body_env \<lparr> isExporting = True, error = None \<rparr>
     = (Resolved None,
        \<lparr> isExporting = True, error = Some (lit ''Cannot access iframe content'') \<rparr>)"
  by (simp add: exportPdf_def cross_origin_env_def no_body_env_def two_pages_env_def
        initial_state_def start_def)

end
